theory Spec2Isabelle
  imports Main
begin

section \<open>Session-authenticated account service: model of auth.py and models.py\<close>

text \<open>
  The handlers of \<^verbatim>\<open>auth.py\<close> are embedded as functions from a state to an outcome and
  the state after the request. The state holds the two tables of \<^verbatim>\<open>models.py\<close>, the
  session dictionary of the requesting client and the e-mail tasks handed to
  \<^verbatim>\<open>BackgroundTasks\<close>. A raised exception is the \<open>Inl\<close> branch of the outcome; work that was
  pending in the ORM session when an exception is raised is never committed, so the tables
  of the state returned with an exception are the tables before the request.

  Values that the handlers obtain from outside the repository are parameters:
  the clock, the random source, fresh identifiers and the salt in \<open>env\<close>, and the two
  functions of the bcrypt library in \<open>bcrypt\<close>.

  Timestamps are instants in seconds, all on the UTC time line: the naive value of
  \<^verbatim>\<open>datetime.utcnow()\<close> and the aware value of \<^verbatim>\<open>datetime.now(timezone.utc)\<close> read the same
  clock, and the database session is taken to run in UTC, so that a value stored in a
  \<^verbatim>\<open>DateTime(timezone=True)\<close> column is read back as the instant that was written.

  The \<^verbatim>\<open>detail\<close> and \<^verbatim>\<open>message\<close> literals of the source are Korean. Each distinct literal is
  written here as one English rendering; the same literal always gets the same rendering:
  \<^item> lines 62 and 220: \<open>password must be at least 8 characters\<close>;
  \<^item> lines 87 and 90: \<open>email or password is incorrect\<close>;
  \<^item> lines 117 and 141: \<open>login required\<close>;
  \<^item> lines 145 and 217: \<open>user not found\<close>;
  \<^item> every other literal occurs once.
\<close>

subsection \<open>Data model\<close>

text \<open>
  The columns of \<^verbatim>\<open>users\<close> and \<^verbatim>\<open>password_reset_codes\<close>. Identifiers are kept in their string
  form. \<^verbatim>\<open>created_at\<close> is filled by the server default on every insert of the handlers, so it
  is never \<^verbatim>\<open>NULL\<close>; \<^verbatim>\<open>last_login\<close> is \<^verbatim>\<open>NULL\<close> until the first login.
\<close>

type_synonym datetime = int

record User =
  user_id :: string
  email :: string
  password :: string
  role :: string
  is_active :: bool
  last_login :: "datetime option"
  created_at :: datetime

record PasswordResetCode =
  code_id :: string
  email :: string
  code :: string
  expires_at :: datetime
  created_at :: datetime

type_synonym task = "string \<times> string \<times> string"

record state =
  users :: "User list"
  password_reset_codes :: "PasswordResetCode list"
  session :: "string \<rightharpoonup> string"
  background_tasks :: "task list"

datatype exn =
    HTTPException nat string
  | UnmappedInstanceError
  | IntegrityError
  | ValueError

datatype json = JBool bool | JStr string | JDateTime datetime | JNull

type_synonym response = "(string \<times> json) list"

type_synonym outcome = "(exn + response) \<times> state"

subsection \<open>Environment\<close>

text \<open>
  What one request reads from its surroundings: the application clock (\<^verbatim>\<open>datetime.utcnow()\<close>,
  \<^verbatim>\<open>datetime.now(timezone.utc)\<close>), the database clock behind \<^verbatim>\<open>server_default=func.now()\<close>,
  the random source behind \<^verbatim>\<open>random.randint\<close>, the identifier that \<^verbatim>\<open>uuid.uuid4\<close> yields for a
  new row, and the salt that \<^verbatim>\<open>bcrypt.gensalt()\<close> yields.
\<close>

record env =
  utcnow :: datetime
  db_now :: datetime
  entropy :: nat
  uuid4 :: string
  gensalt :: string

text \<open>
  A string of the model is the UTF-8 encoding of the Python string, one \<open>char\<close> per byte, so
  that \<open>length\<close> is the length of \<^verbatim>\<open>s.encode("utf-8")\<close>. Python's \<^verbatim>\<open>len(s)\<close> counts code points:
  the bytes that are not continuation bytes (\<open>0x80\<close> to \<open>0xBF\<close>).
\<close>

definition utf8_continuation :: "char \<Rightarrow> bool" where
  "utf8_continuation c \<longleftrightarrow> (128::nat) \<le> of_char c \<and> of_char c < (192::nat)"

definition len :: "string \<Rightarrow> nat" where
  "len s = length (filter (\<lambda>c. \<not> utf8_continuation c) s)"

text \<open>
  The bcrypt library is not part of the repository. What it computes is left open:
  \<open>hashpw lib pw salt\<close> is the digest it returns for a password and a salt,
  \<open>checkpw lib pw hashed\<close> its verdict on a password and a stored digest. What is known of it
  is when it refuses to compute: \<^verbatim>\<open>bcrypt.hashpw\<close> and \<^verbatim>\<open>bcrypt.checkpw\<close> raise \<^verbatim>\<open>ValueError\<close> for a
  password of more than 72 bytes. No handler catches that exception. The stored digests
  are the ones \<^verbatim>\<open>hashpw\<close> returned, which \<^verbatim>\<open>checkpw\<close> accepts.
\<close>

record bcrypt =
  hashpw :: "string \<Rightarrow> string \<Rightarrow> string"
  checkpw :: "string \<Rightarrow> string \<Rightarrow> bool"

text \<open>\<^verbatim>\<open>bcrypt.hashpw(pw.encode("utf-8"), salt).decode("utf-8")\<close>\<close>

definition bcrypt_hashpw :: "bcrypt \<Rightarrow> string \<Rightarrow> string \<Rightarrow> exn + string" where
  "bcrypt_hashpw lib pw salt =
     (if 72 < length pw then Inl ValueError else Inr (hashpw lib pw salt))"

text \<open>\<^verbatim>\<open>bcrypt.checkpw(pw.encode("utf-8"), hashed.encode("utf-8"))\<close>\<close>

definition bcrypt_checkpw :: "bcrypt \<Rightarrow> string \<Rightarrow> string \<Rightarrow> exn + bool" where
  "bcrypt_checkpw lib pw hashed =
     (if 72 < length pw then Inl ValueError else Inr (checkpw lib pw hashed))"

definition timedelta_minutes :: "int \<Rightarrow> datetime" where
  "timedelta_minutes m = 60 * m"

text \<open>
  \<^verbatim>\<open>random.randint(a, b)\<close> is \<^verbatim>\<open>a + _randbelow(b - a + 1)\<close>; the value below the bound is read
  off the entropy of the environment.
\<close>

definition randbelow :: "nat \<Rightarrow> nat \<Rightarrow> nat" where
  "randbelow n r = r mod n"

definition randint :: "int \<Rightarrow> int \<Rightarrow> nat \<Rightarrow> int" where
  "randint a b r = a + int (randbelow (nat (b - a + 1)) r)"

subsection \<open>Python's \<^verbatim>\<open>str\<close> on integers\<close>

definition digit_char :: "nat \<Rightarrow> char" where
  "digit_char d = ''0123456789'' ! d"

function str_nat :: "nat \<Rightarrow> string" where
  "str_nat n = (if n < 10 then [digit_char n] else str_nat (n div 10) @ [digit_char (n mod 10)])"
  by pat_completeness auto
termination
  by (relation "measure id") auto

definition str :: "int \<Rightarrow> string" where
  "str i = (if i < 0 then CHR ''-'' # str_nat (nat (- i)) else str_nat (nat i))"

subsection \<open>Queries and commits\<close>

text \<open>\<^verbatim>\<open>db.query(User).filter(User.email == email).first()\<close>\<close>

definition query_user_by_email :: "state \<Rightarrow> string \<Rightarrow> User option" where
  "query_user_by_email st em = find (\<lambda>u. User.email u = em) (users st)"

text \<open>
  \<^verbatim>\<open>db.query(User).filter(User.user_id == user_id).first()\<close>; identifiers are kept in the
  string form that \<^verbatim>\<open>login\<close> writes into the session.
\<close>

definition query_user_by_id :: "state \<Rightarrow> string \<Rightarrow> User option" where
  "query_user_by_id st uid = find (\<lambda>u. user_id u = uid) (users st)"

text \<open>
  \<^verbatim>\<open>.order_by(PasswordResetCode.created_at.desc()).first()\<close>: a row with the greatest
  creation time, none when there is no row. Among rows created at the same instant the
  database is free to return any; the model returns the first of them in table order.
\<close>

fun order_by_created_at_desc_first :: "PasswordResetCode list \<Rightarrow> PasswordResetCode option" where
  "order_by_created_at_desc_first [] = None"
| "order_by_created_at_desc_first (r # rs) =
     (case order_by_created_at_desc_first rs of
        None \<Rightarrow> Some r
      | Some m \<Rightarrow>
          if PasswordResetCode.created_at r < PasswordResetCode.created_at m then Some m
          else Some r)"

definition query_code_by_email_code :: "state \<Rightarrow> string \<Rightarrow> string \<Rightarrow> PasswordResetCode option" where
  "query_code_by_email_code st em c =
     order_by_created_at_desc_first
       (filter (\<lambda>r. PasswordResetCode.email r = em \<and> code r = c) (password_reset_codes st))"

definition query_code_by_email :: "state \<Rightarrow> string \<Rightarrow> PasswordResetCode option" where
  "query_code_by_email st em =
     order_by_created_at_desc_first
       (filter (\<lambda>r. PasswordResetCode.email r = em) (password_reset_codes st))"

text \<open>
  \<^verbatim>\<open>db.add(user); db.commit()\<close>: the primary key and the unique e-mail column of \<^verbatim>\<open>users\<close>
  reject a second row with the same value.
\<close>

definition insert_user :: "User \<Rightarrow> state \<Rightarrow> exn + state" where
  "insert_user u st =
     (if user_id u \<in> set (map user_id (users st)) \<or> User.email u \<in> set (map User.email (users st))
      then Inl IntegrityError
      else Inr (st\<lparr>users := users st @ [u]\<rparr>))"

definition insert_code :: "PasswordResetCode \<Rightarrow> state \<Rightarrow> exn + state" where
  "insert_code r st =
     (if code_id r \<in> set (map code_id (password_reset_codes st))
      then Inl IntegrityError
      else Inr (st\<lparr>password_reset_codes := password_reset_codes st @ [r]\<rparr>))"

text \<open>A changed attribute of a loaded row is written by primary key at commit.\<close>

definition update_user :: "User \<Rightarrow> state \<Rightarrow> state" where
  "update_user u st = st\<lparr>users := map (\<lambda>x. if user_id x = user_id u then u else x) (users st)\<rparr>"

text \<open>
  \<^verbatim>\<open>db.delete(record)\<close>: the row is removed by primary key at commit. The ORM raises
  \<^verbatim>\<open>UnmappedInstanceError\<close> when it is handed \<^verbatim>\<open>None\<close> instead of a mapped row.
\<close>

definition delete_code :: "PasswordResetCode option \<Rightarrow> state \<Rightarrow> exn + state" where
  "delete_code record st =
     (case record of
        None \<Rightarrow> Inl UnmappedInstanceError
      | Some r \<Rightarrow>
          Inr (st\<lparr>password_reset_codes :=
                    filter (\<lambda>x. code_id x \<noteq> code_id r) (password_reset_codes st)\<rparr>))"

text \<open>The declared constraints of the two tables.\<close>

definition db_constraints :: "state \<Rightarrow> bool" where
  "db_constraints st \<longleftrightarrow>
     distinct (map user_id (users st)) \<and>
     distinct (map User.email (users st)) \<and>
     distinct (map code_id (password_reset_codes st))"

subsection \<open>Handlers\<close>

definition check_email :: "state \<Rightarrow> string \<Rightarrow> response" where
  "check_email st em =
     (let exists = query_user_by_email st em in
      [(''available'', JBool (exists = None)),
       (''message'', JStr (if exists = None then ''email is available'' else ''email is already in use''))])"

definition register :: "bcrypt \<Rightarrow> env \<Rightarrow> state \<Rightarrow> string \<Rightarrow> string \<Rightarrow> outcome" where
  "register lib e st em pw =
     (case query_user_by_email st em of
        Some exists \<Rightarrow> (Inl (HTTPException 400 ''email already exists''), st)
      | None \<Rightarrow>
          if len pw < 8
          then (Inl (HTTPException 400 ''password must be at least 8 characters''), st)
          else
            (case bcrypt_hashpw lib pw (gensalt e) of
               Inl err \<Rightarrow> (Inl err, st)
             | Inr hashed_pw \<Rightarrow>
                 let user = \<lparr>user_id = uuid4 e, User.email = em, password = hashed_pw,
                             role = ''user'', is_active = True, last_login = None,
                             User.created_at = db_now e\<rparr>
                 in (case insert_user user st of
                       Inl err \<Rightarrow> (Inl err, st)
                     | Inr st' \<Rightarrow>
                         (Inr [(''success'', JBool True),
                               (''message'', JStr ''registration complete''),
                               (''user_id'', JStr (user_id user))], st'))))"

definition login :: "bcrypt \<Rightarrow> env \<Rightarrow> state \<Rightarrow> string \<Rightarrow> string \<Rightarrow> outcome" where
  "login lib e st em pw =
     (case query_user_by_email st em of
        None \<Rightarrow> (Inl (HTTPException 401 ''email or password is incorrect''), st)
      | Some user \<Rightarrow>
          (case bcrypt_checkpw lib pw (password user) of
             Inl err \<Rightarrow> (Inl err, st)
           | Inr verified \<Rightarrow>
               if \<not> verified
               then (Inl (HTTPException 401 ''email or password is incorrect''), st)
               else
                 let st1 = st\<lparr>session := (session st)(''user_id'' \<mapsto> user_id user,
                                                       ''email'' \<mapsto> User.email user)\<rparr>;
                     st2 = update_user (user\<lparr>last_login := Some (utcnow e)\<rparr>) st1
                 in (Inr [(''success'', JBool True), (''message'', JStr ''login success'')],
                     st2)))"

definition logout :: "state \<Rightarrow> outcome" where
  "logout st =
     (Inr [(''success'', JBool True), (''message'', JStr ''logout complete'')],
      st\<lparr>session := Map.empty\<rparr>)"

text \<open>\<^verbatim>\<open>not user_id\<close> holds for a missing key and for the empty string.\<close>

definition falsy :: "string option \<Rightarrow> bool" where
  "falsy v = (case v of None \<Rightarrow> True | Some s \<Rightarrow> s = [])"

definition me :: "state \<Rightarrow> outcome" where
  "me st =
     (let uid = session st ''user_id'' in
      if falsy uid then (Inl (HTTPException 401 ''login required''), st)
      else
        (case query_user_by_id st (the uid) of
           None \<Rightarrow> (Inl (HTTPException 401 ''invalid user''), st\<lparr>session := Map.empty\<rparr>)
         | Some user \<Rightarrow>
             (Inr [(''user_id'', JStr (user_id user)),
                   (''email'', JStr (User.email user)),
                   (''role'', JStr (role user)),
                   (''is_active'', JBool (is_active user)),
                   (''last_login'', (case last_login user of None \<Rightarrow> JNull | Some t \<Rightarrow> JDateTime t)),
                   (''created_at'', JDateTime (User.created_at user))], st)))"

definition change_password :: "bcrypt \<Rightarrow> env \<Rightarrow> state \<Rightarrow> string \<Rightarrow> string \<Rightarrow> outcome" where
  "change_password lib e st current_password new_password =
     (let uid = session st ''user_id'' in
      if falsy uid then (Inl (HTTPException 401 ''login required''), st)
      else
        (case query_user_by_id st (the uid) of
           None \<Rightarrow> (Inl (HTTPException 404 ''user not found''), st)
         | Some user \<Rightarrow>
             (case bcrypt_checkpw lib current_password (password user) of
                Inl err \<Rightarrow> (Inl err, st)
              | Inr verified \<Rightarrow>
                  if \<not> verified
                  then (Inl (HTTPException 400 ''current password does not match''), st)
                  else if len new_password < 8
                  then (Inl (HTTPException 400 ''new password must be at least 8 characters''), st)
                  else
                    (case bcrypt_hashpw lib new_password (gensalt e) of
                       Inl err \<Rightarrow> (Inl err, st)
                     | Inr hashed_pw \<Rightarrow>
                         (Inr [(''success'', JBool True), (''message'', JStr ''password changed'')],
                          update_user (user\<lparr>password := hashed_pw\<rparr>) st)))))"

definition password_reset_request :: "env \<Rightarrow> state \<Rightarrow> string \<Rightarrow> outcome" where
  "password_reset_request e st em =
     (case query_user_by_email st em of
        None \<Rightarrow> (Inl (HTTPException 404 ''email is not registered''), st)
      | Some user \<Rightarrow>
          let code = str (randint 100000 999999 (entropy e));
              expires = utcnow e + timedelta_minutes 5;
              entry = \<lparr>code_id = uuid4 e, PasswordResetCode.email = em, code = code,
                       expires_at = expires, PasswordResetCode.created_at = db_now e\<rparr>
          in (case insert_code entry st of
                Inl err \<Rightarrow> (Inl err, st)
              | Inr st' \<Rightarrow>
                  (Inr [(''success'', JBool True),
                        (''message'', JStr ''verification code sent by email'')],
                   st'\<lparr>background_tasks := background_tasks st' @
                          [(em, ''[service] password reset verification code'',
                            ''verification code: '' @ code @ [CHR 0x0A] @
                            ''enter within 5 minutes'')]\<rparr>)))"

definition password_reset_verify_code :: "env \<Rightarrow> state \<Rightarrow> string \<Rightarrow> string \<Rightarrow> outcome" where
  "password_reset_verify_code e st em c =
     (case query_code_by_email_code st em c of
        None \<Rightarrow> (Inl (HTTPException 400 ''invalid verification code''), st)
      | Some record \<Rightarrow>
          if expires_at record < utcnow e
          then (Inl (HTTPException 400 ''verification code expired''), st)
          else (Inr [(''success'', JBool True), (''message'', JStr ''verification code confirmed'')], st))"

definition password_reset_confirm :: "bcrypt \<Rightarrow> env \<Rightarrow> state \<Rightarrow> string \<Rightarrow> string \<Rightarrow> outcome" where
  "password_reset_confirm lib e st em new_password =
     (let record = query_code_by_email st em in
      case query_user_by_email st em of
        None \<Rightarrow> (Inl (HTTPException 404 ''user not found''), st)
      | Some user \<Rightarrow>
          if len new_password < 8
          then (Inl (HTTPException 400 ''password must be at least 8 characters''), st)
          else
            (case bcrypt_hashpw lib new_password (gensalt e) of
               Inl err \<Rightarrow> (Inl err, st)
             | Inr hashed_pw \<Rightarrow>
                 let st1 = update_user (user\<lparr>password := hashed_pw\<rparr>) st
                 in (case delete_code record st1 of
                       Inl err \<Rightarrow> (Inl err, st)
                     | Inr st2 \<Rightarrow>
                         (Inr [(''success'', JBool True),
                               (''message'', JStr ''password reset complete'')],
                          st2))))"

subsection \<open>A concrete instance\<close>

text \<open>
  A small state on which the theorems below are evaluated: one account, three reset codes
  (two of them for the account's address and carrying the same code string), and an
  instance of the two library functions that keeps the salt in the first four characters.
  The instance only serves to run the handlers on; no theorem about the handlers depends
  on it.
\<close>

definition demo_bcrypt :: bcrypt where
  "demo_bcrypt = \<lparr>hashpw = (\<lambda>pw salt. salt @ pw), checkpw = (\<lambda>pw hashed. drop 4 hashed = pw)\<rparr>"

definition demo_env :: env where
  "demo_env = \<lparr>utcnow = 350, db_now = 350, entropy = 23456, uuid4 = ''id-9'', gensalt = ''s4lt''\<rparr>"

definition alice :: User where
  "alice = \<lparr>user_id = ''id-1'', User.email = ''a@x.com'', password = ''saltpassword1'',
             role = ''user'', is_active = True, last_login = None, User.created_at = 0\<rparr>"

definition code_old :: PasswordResetCode where
  "code_old = \<lparr>code_id = ''id-2'', PasswordResetCode.email = ''a@x.com'', code = ''123456'',
                expires_at = 310, PasswordResetCode.created_at = 10\<rparr>"

definition code_new :: PasswordResetCode where
  "code_new = \<lparr>code_id = ''id-3'', PasswordResetCode.email = ''a@x.com'', code = ''123456'',
                expires_at = 400, PasswordResetCode.created_at = 100\<rparr>"

definition code_other :: PasswordResetCode where
  "code_other = \<lparr>code_id = ''id-4'', PasswordResetCode.email = ''b@x.com'', code = ''654321'',
                  expires_at = 300, PasswordResetCode.created_at = 0\<rparr>"

definition demo_state :: state where
  "demo_state = \<lparr>users = [alice], password_reset_codes = [code_old, code_new, code_other],
                  session = Map.empty, background_tasks = []\<rparr>"

lemmas demo_defs =
  demo_bcrypt_def demo_env_def alice_def code_old_def code_new_def code_other_def demo_state_def

section \<open>Auxiliary facts\<close>

subsection \<open>Decimal strings and the random draw\<close>

declare str_nat.simps [simp del]

lemma digit_char_in_digits: "d < 10 \<Longrightarrow> digit_char d \<in> set ''0123456789''"
  unfolding digit_char_def by (rule nth_mem) simp

lemma digit_char_nonzero: "0 < d \<Longrightarrow> d < 10 \<Longrightarrow> digit_char d \<noteq> CHR ''0''"
proof -
  assume "0 < d" "d < 10"
  then have "d \<in> {1, 2, 3, 4, 5, 6, 7, 8, 9}" by auto
  then show ?thesis unfolding digit_char_def by auto
qed

lemma str_nat_digits: "c \<in> set (str_nat n) \<Longrightarrow> c \<in> set ''0123456789''"
proof (induction n rule: str_nat.induct)
  case (1 n)
  show ?case
  proof (cases "n < 10")
    case True
    with "1.prems" have "c = digit_char n" by (simp add: str_nat.simps [of n])
    with True show ?thesis using digit_char_in_digits by blast
  next
    case False
    with "1.prems" have "c \<in> set (str_nat (n div 10)) \<or> c = digit_char (n mod 10)"
      by (auto simp: str_nat.simps [of n])
    then show ?thesis
    proof
      assume "c \<in> set (str_nat (n div 10))"
      with False "1.IH" show ?thesis by blast
    next
      assume "c = digit_char (n mod 10)"
      moreover have "n mod 10 < 10" by simp
      ultimately show ?thesis using digit_char_in_digits by blast
    qed
  qed
qed

lemma str_nat_nonempty: "str_nat n \<noteq> []"
  by (simp add: str_nat.simps [of n])

lemma str_nat_hd_nonzero: "0 < n \<Longrightarrow> hd (str_nat n) \<noteq> CHR ''0''"
proof (induction n rule: str_nat.induct)
  case (1 n)
  show ?case
  proof (cases "n < 10")
    case True
    with "1.prems" show ?thesis by (simp add: str_nat.simps [of n] digit_char_nonzero)
  next
    case False
    then have "0 < n div 10" by simp
    with False "1.IH" have "hd (str_nat (n div 10)) \<noteq> CHR ''0''" by blast
    with False show ?thesis by (simp add: str_nat.simps [of n] str_nat_nonempty)
  qed
qed

lemma length_str_nat_small: "n < 10 \<Longrightarrow> length (str_nat n) = 1"
  by (simp add: str_nat.simps [of n])

lemma length_str_nat_step: "10 \<le> n \<Longrightarrow> length (str_nat n) = Suc (length (str_nat (n div 10)))"
  by (simp add: str_nat.simps [of n])

lemma div10_bounds: "10 * lo \<le> (n::nat) \<Longrightarrow> n \<le> 10 * hi + 9 \<Longrightarrow> lo \<le> n div 10 \<and> n div 10 \<le> hi"
  by linarith

lemma length_str_nat_six:
  assumes "100000 \<le> n" "n \<le> 999999"
  shows "length (str_nat n) = 6"
proof -
  define a where "a = n div 10"
  define b where "b = a div 10"
  define c where "c = b div 10"
  define d where "d = c div 10"
  define e where "e = d div 10"
  have a: "10000 \<le> a \<and> a \<le> 99999" unfolding a_def using assms by (intro div10_bounds) simp_all
  have b: "1000 \<le> b \<and> b \<le> 9999" unfolding b_def using a by (intro div10_bounds) simp_all
  have c: "100 \<le> c \<and> c \<le> 999" unfolding c_def using b by (intro div10_bounds) simp_all
  have d: "10 \<le> d \<and> d \<le> 99" unfolding d_def using c by (intro div10_bounds) simp_all
  have e: "1 \<le> e \<and> e \<le> 9" unfolding e_def using d by (intro div10_bounds) simp_all
  have "length (str_nat e) = 1" using e by (simp add: length_str_nat_small)
  then have "length (str_nat d) = 2" using d by (simp add: length_str_nat_step [of d] e_def)
  then have "length (str_nat c) = 3" using c by (simp add: length_str_nat_step [of c] d_def)
  then have "length (str_nat b) = 4" using b by (simp add: length_str_nat_step [of b] c_def)
  then have "length (str_nat a) = 5" using a by (simp add: length_str_nat_step [of a] b_def)
  then show ?thesis using assms by (simp add: length_str_nat_step [of n] a_def)
qed

lemma randint_range: "a \<le> b \<Longrightarrow> a \<le> randint a b r \<and> randint a b r \<le> b"
proof -
  assume ab: "a \<le> b"
  then have pos: "0 < nat (b - a + 1)" by simp
  have "r mod nat (b - a + 1) < nat (b - a + 1)" using pos by (rule mod_less_divisor)
  then have "int (r mod nat (b - a + 1)) < b - a + 1" using ab by linarith
  then show ?thesis unfolding randint_def randbelow_def by simp
qed

lemma randint_onto: "a \<le> n \<Longrightarrow> n \<le> b \<Longrightarrow> randint a b (nat (n - a)) = n"
  unfolding randint_def randbelow_def by simp

lemma str_six_digits:
  assumes "100000 \<le> i" "i \<le> 999999"
  shows "length (str i) = 6" "set (str i) \<subseteq> set ''0123456789''" "hd (str i) \<noteq> CHR ''0''"
proof -
  have s: "str i = str_nat (nat i)" using assms by (simp add: str_def)
  have n: "100000 \<le> nat i" "nat i \<le> 999999" "0 < nat i" using assms by auto
  show "length (str i) = 6" using s n length_str_nat_six by simp
  show "set (str i) \<subseteq> set ''0123456789''" unfolding s using str_nat_digits by blast
  show "hd (str i) \<noteq> CHR ''0''" unfolding s using n(3) by (rule str_nat_hd_nonzero)
qed

subsection \<open>Password length and the library's refusal\<close>

lemma len_le_length: "len s \<le> length s"
  by (simp add: len_def)

lemma len_replicate_ascii: "len (replicate n (CHR ''x'')) = n"
  by (simp add: len_def utf8_continuation_def)

subsection \<open>Queries\<close>

lemma first_None_iff: "order_by_created_at_desc_first rs = None \<longleftrightarrow> rs = []"
  by (cases rs) (auto split: option.splits)

lemma first_mem: "order_by_created_at_desc_first rs = Some m \<Longrightarrow> m \<in> set rs"
  by (induction rs arbitrary: m) (auto split: option.splits if_splits)

lemma first_max:
  "order_by_created_at_desc_first rs = Some m \<Longrightarrow> r \<in> set rs \<Longrightarrow>
   PasswordResetCode.created_at r \<le> PasswordResetCode.created_at m"
proof (induction rs arbitrary: m)
  case Nil
  then show ?case by simp
next
  case (Cons x xs)
  show ?case
  proof (cases "order_by_created_at_desc_first xs")
    case None
    then have "xs = []" by (simp add: first_None_iff)
    with Cons.prems None show ?thesis by simp
  next
    case (Some k)
    show ?thesis
    proof (cases "PasswordResetCode.created_at x < PasswordResetCode.created_at k")
      case True
      with Some Cons.prems have m: "m = k" by simp
      from Cons.prems(2) have "r = x \<or> r \<in> set xs" by simp
      then show ?thesis
      proof
        assume "r = x" with True m show ?thesis by simp
      next
        assume "r \<in> set xs" with Cons.IH [OF Some] m show ?thesis by simp
      qed
    next
      case False
      with Some Cons.prems have m: "m = x" by simp
      from Cons.prems(2) have "r = x \<or> r \<in> set xs" by simp
      then show ?thesis
      proof
        assume "r = x" with m show ?thesis by simp
      next
        assume "r \<in> set xs"
        with Cons.IH [OF Some] have "PasswordResetCode.created_at r \<le> PasswordResetCode.created_at k" .
        with False m show ?thesis by simp
      qed
    qed
  qed
qed

lemma first_strict_max:
  assumes "r \<in> set rs"
    and "\<forall>x\<in>set rs. x \<noteq> r \<longrightarrow> PasswordResetCode.created_at x < PasswordResetCode.created_at r"
  shows "order_by_created_at_desc_first rs = Some r"
proof -
  from assms(1) have "rs \<noteq> []" by auto
  then obtain m where m: "order_by_created_at_desc_first rs = Some m"
    by (cases "order_by_created_at_desc_first rs") (simp_all add: first_None_iff)
  then have "m \<in> set rs" by (rule first_mem)
  moreover from m assms(1) have "PasswordResetCode.created_at r \<le> PasswordResetCode.created_at m"
    by (rule first_max)
  ultimately have "m = r" using assms(2) by fastforce
  with m show ?thesis by simp
qed

lemma find_update_same_key:
  assumes "find (\<lambda>u. User.email u = em) us = Some user"
    and "User.email user' = em" and "user_id user' = user_id user"
  shows "find (\<lambda>u. User.email u = em)
           (map (\<lambda>x. if user_id x = user_id user then user' else x) us) = Some user'"
  using assms by (induction us) (auto split: if_splits)

lemma query_user_by_email_update:
  assumes "query_user_by_email st em = Some user"
    and "User.email user' = em" and "user_id user' = user_id user"
  shows "query_user_by_email (update_user user' st) em = Some user'"
  using find_update_same_key [OF assms(1)[unfolded query_user_by_email_def] assms(2,3)] assms(3)
  by (simp add: query_user_by_email_def update_user_def)

lemma query_user_by_email_Some:
  "query_user_by_email st em = Some u \<Longrightarrow> u \<in> set (users st) \<and> User.email u = em"
  by (auto simp: query_user_by_email_def find_Some_iff)

lemma query_user_by_email_None:
  "query_user_by_email st em = None \<Longrightarrow> em \<notin> set (map User.email (users st))"
  by (auto simp: query_user_by_email_def find_None_iff)

lemma query_user_by_email_append:
  "query_user_by_email st em = None \<Longrightarrow> User.email u = em \<Longrightarrow>
   query_user_by_email (st\<lparr>users := users st @ [u]\<rparr>) em = Some u"
proof -
  assume n: "query_user_by_email st em = None" and u: "User.email u = em"
  have "\<And>us. find (\<lambda>x. User.email x = em) us = None \<Longrightarrow>
        find (\<lambda>x. User.email x = em) (us @ [u]) = Some u"
  proof -
    fix us show "find (\<lambda>x. User.email x = em) us = None \<Longrightarrow>
        find (\<lambda>x. User.email x = em) (us @ [u]) = Some u"
      using u by (induction us) (auto split: if_splits)
  qed
  with n show ?thesis by (simp add: query_user_by_email_def)
qed

lemma query_user_by_id_Some:
  "query_user_by_id st uid = Some u \<Longrightarrow> u \<in> set (users st) \<and> user_id u = uid"
  by (auto simp: query_user_by_id_def find_Some_iff)

lemma query_code_by_email_code_Some:
  "query_code_by_email_code st em c = Some r \<Longrightarrow>
   r \<in> set (password_reset_codes st) \<and> PasswordResetCode.email r = em \<and> code r = c"
  using first_mem [of "filter (\<lambda>r. PasswordResetCode.email r = em \<and> code r = c) (password_reset_codes st)" r]
  by (simp add: query_code_by_email_code_def)

lemma query_code_by_email_Some:
  "query_code_by_email st em = Some r \<Longrightarrow>
   r \<in> set (password_reset_codes st) \<and> PasswordResetCode.email r = em \<and>
   (\<forall>x\<in>set (password_reset_codes st). PasswordResetCode.email x = em \<longrightarrow>
       PasswordResetCode.created_at x \<le> PasswordResetCode.created_at r)"
proof -
  assume q: "query_code_by_email st em = Some r"
  let ?rs = "filter (\<lambda>r. PasswordResetCode.email r = em) (password_reset_codes st)"
  from q have f: "order_by_created_at_desc_first ?rs = Some r" by (simp add: query_code_by_email_def)
  then have "r \<in> set ?rs" by (rule first_mem)
  moreover have "\<forall>x\<in>set ?rs. PasswordResetCode.created_at x \<le> PasswordResetCode.created_at r"
    using first_max [OF f] by blast
  ultimately show ?thesis by simp
qed

lemma query_code_by_email_None_iff:
  "query_code_by_email st em = None \<longleftrightarrow>
   (\<forall>x\<in>set (password_reset_codes st). PasswordResetCode.email x \<noteq> em)"
  by (auto simp: query_code_by_email_def first_None_iff filter_empty_conv)

lemma filter_key_remove1:
  "distinct (map code_id rs) \<Longrightarrow> r \<in> set rs \<Longrightarrow>
   filter (\<lambda>x. code_id x \<noteq> code_id r) rs = remove1 r rs"
proof (induction rs)
  case Nil
  then show ?case by simp
next
  case (Cons a rs)
  show ?case
  proof (cases "a = r")
    case True
    from Cons.prems(1) have "\<forall>x\<in>set rs. code_id x \<noteq> code_id a" by (auto simp: image_iff)
    then have "filter (\<lambda>x. code_id x \<noteq> code_id a) rs = rs" by (simp add: filter_id_conv)
    with True show ?thesis by simp
  next
    case False
    with Cons.prems(2) have r: "r \<in> set rs" by simp
    with Cons.prems(1) have "code_id a \<noteq> code_id r" by auto
    moreover from Cons.prems(1) have "distinct (map code_id rs)" by simp
    ultimately show ?thesis using False r Cons.IH by simp
  qed
qed

subsection \<open>The table constraints are kept by every handler\<close>

lemma update_user_columns:
  assumes "user \<in> set us" and "distinct (map user_id us)"
    and "user_id u' = user_id user" and "User.email u' = User.email user"
  shows "map user_id (map (\<lambda>x. if user_id x = user_id u' then u' else x) us) = map user_id us"
    and "map User.email (map (\<lambda>x. if user_id x = user_id u' then u' else x) us) = map User.email us"
proof -
  show "map user_id (map (\<lambda>x. if user_id x = user_id u' then u' else x) us) = map user_id us"
    by (induction us) auto
  have inj: "inj_on user_id (set us)" using assms(2) by (simp add: distinct_map)
  have "\<forall>x\<in>set us. user_id x = user_id u' \<longrightarrow> x = user"
    using inj assms(1,3) by (auto dest: inj_onD)
  then have "\<forall>x\<in>set us. User.email (if user_id x = user_id u' then u' else x) = User.email x"
    using assms(4) by auto
  then show "map User.email (map (\<lambda>x. if user_id x = user_id u' then u' else x) us) = map User.email us"
    by (simp add: map_idI comp_def cong: map_cong)
qed

lemma update_user_constraints:
  assumes "db_constraints st" and "user \<in> set (users st)"
    and "user_id u' = user_id user" and "User.email u' = User.email user"
  shows "db_constraints (update_user u' st)"
proof -
  have d: "distinct (map user_id (users st))" using assms(1) by (simp add: db_constraints_def)
  have ids: "map user_id (users (update_user u' st)) = map user_id (users st)"
    unfolding update_user_def using update_user_columns(1) [OF assms(2) d assms(3,4)] by simp
  have emails: "map User.email (users (update_user u' st)) = map User.email (users st)"
    unfolding update_user_def using update_user_columns(2) [OF assms(2) d assms(3,4)] by simp
  have codes: "password_reset_codes (update_user u' st) = password_reset_codes st"
    by (simp add: update_user_def)
  show ?thesis using assms(1) unfolding db_constraints_def ids emails codes .
qed

lemma register_constraints: "db_constraints st \<Longrightarrow> db_constraints (snd (register lib e st em pw))"
  by (auto simp: register_def insert_user_def db_constraints_def bcrypt_hashpw_def Let_def
      split: option.splits)

lemma login_constraints:
  assumes "db_constraints st" shows "db_constraints (snd (login lib e st em pw))"
proof (cases "query_user_by_email st em")
  case None
  with assms show ?thesis by (simp add: login_def)
next
  case (Some user)
  let ?st1 = "st\<lparr>session := (session st)(''user_id'' \<mapsto> user_id user, ''email'' \<mapsto> User.email user)\<rparr>"
  have "db_constraints ?st1" using assms by (simp add: db_constraints_def)
  moreover have "user \<in> set (users ?st1)" using Some by (simp add: query_user_by_email_Some)
  ultimately have "db_constraints (update_user (user\<lparr>last_login := Some (utcnow e)\<rparr>) ?st1)"
    by (rule update_user_constraints) simp_all
  with Some assms show ?thesis by (simp add: login_def bcrypt_checkpw_def)
qed

lemma change_password_constraints:
  assumes "db_constraints st"
  shows "db_constraints (snd (change_password lib e st current_password new_password))"
proof (cases "falsy (session st ''user_id'')")
  case True
  with assms show ?thesis by (simp add: change_password_def)
next
  case nf: False
  show ?thesis
  proof (cases "query_user_by_id st (the (session st ''user_id''))")
    case None
    with assms nf show ?thesis by (simp add: change_password_def)
  next
    case (Some user)
    then have "user \<in> set (users st)" by (simp add: query_user_by_id_Some)
    with assms have "db_constraints (update_user (user\<lparr>password := hashpw lib new_password (gensalt e)\<rparr>) st)"
      by (rule update_user_constraints) simp_all
    with Some assms nf show ?thesis
      by (simp add: change_password_def bcrypt_checkpw_def bcrypt_hashpw_def)
  qed
qed

lemma password_reset_request_constraints:
  "db_constraints st \<Longrightarrow> db_constraints (snd (password_reset_request e st em))"
  by (auto simp: password_reset_request_def insert_code_def db_constraints_def Let_def
      split: option.splits)

lemma password_reset_confirm_constraints:
  assumes "db_constraints st"
  shows "db_constraints (snd (password_reset_confirm lib e st em pw))"
proof (cases "query_user_by_email st em")
  case None
  with assms show ?thesis by (simp add: password_reset_confirm_def)
next
  case (Some user)
  then have "user \<in> set (users st)" by (simp add: query_user_by_email_Some)
  with assms have u: "db_constraints (update_user (user\<lparr>password := hashpw lib pw (gensalt e)\<rparr>) st)"
    by (rule update_user_constraints) simp_all
  have "db_constraints (s\<lparr>password_reset_codes := filter P (password_reset_codes s)\<rparr>)"
    if "db_constraints s" for s P
    using that by (simp add: db_constraints_def distinct_map_filter)
  with u Some assms show ?thesis
    by (auto simp: password_reset_confirm_def delete_code_def bcrypt_hashpw_def Let_def
        split: option.splits)
qed

lemma read_only_handlers:
  "users (snd (me st)) = users st"
  "password_reset_codes (snd (me st)) = password_reset_codes st"
  "users (snd (logout st)) = users st"
  "password_reset_codes (snd (logout st)) = password_reset_codes st"
  by (simp_all add: me_def logout_def Let_def split: option.splits)

lemma demo_state_constraints: "db_constraints demo_state"
  by (simp add: db_constraints_def demo_defs)

subsection \<open>Reset request and confirm, by cases\<close>

lemma reset_request_success:
  assumes "password_reset_request e st em = (Inr resp, st')"
  shows "password_reset_codes st' = password_reset_codes st @
           [\<lparr>code_id = uuid4 e, PasswordResetCode.email = em,
             code = str (randint 100000 999999 (entropy e)),
             expires_at = utcnow e + 300, PasswordResetCode.created_at = db_now e\<rparr>]"
proof (cases "query_user_by_email st em")
  case None
  with assms show ?thesis by (simp add: password_reset_request_def)
next
  case (Some u)
  with assms show ?thesis
    by (auto simp: password_reset_request_def insert_code_def timedelta_minutes_def Let_def
        split: if_splits)
qed

lemma reset_request_every_code_possible:
  assumes "query_user_by_email st em = Some u" and "100000 \<le> n" and "n \<le> 999999"
    and "uuid4 e \<notin> set (map code_id (password_reset_codes st))"
  shows "code (last (password_reset_codes (snd (password_reset_request (e\<lparr>entropy := nat (n - 100000)\<rparr>) st em))))
          = str n"
proof -
  have "randint 100000 999999 (nat (n - 100000)) = n" using assms(2,3) by (rule randint_onto)
  with assms(1,4) show ?thesis
    by (simp add: password_reset_request_def insert_code_def Let_def)
qed

lemma confirm_without_record:
  assumes "query_user_by_email st em = Some u" and "8 \<le> len pw" and "length pw \<le> 72"
    and "query_code_by_email st em = None"
  shows "password_reset_confirm lib e st em pw = (Inl UnmappedInstanceError, st)"
  using assms by (simp add: password_reset_confirm_def delete_code_def bcrypt_hashpw_def)

lemma confirm_refused_password:
  assumes "query_user_by_email st em = Some u" and "8 \<le> len pw" and "72 < length pw"
  shows "password_reset_confirm lib e st em pw = (Inl ValueError, st)"
  using assms by (simp add: password_reset_confirm_def bcrypt_hashpw_def)

lemma confirm_with_record:
  assumes "query_user_by_email st em = Some u" and "8 \<le> len pw" and "length pw \<le> 72"
    and "query_code_by_email st em = Some r"
  shows "password_reset_confirm lib e st em pw =
     (Inr [(''success'', JBool True), (''message'', JStr ''password reset complete'')],
      st\<lparr>users := map (\<lambda>x. if user_id x = user_id u then u\<lparr>password := hashpw lib pw (gensalt e)\<rparr> else x) (users st),
         password_reset_codes := filter (\<lambda>x. code_id x \<noteq> code_id r) (password_reset_codes st)\<rparr>)"
  using assms
  by (simp add: password_reset_confirm_def delete_code_def update_user_def bcrypt_hashpw_def)

lemma confirm_success_cases:
  assumes "password_reset_confirm lib e st em pw = (Inr resp, st')"
  obtains u r where "query_user_by_email st em = Some u" and "8 \<le> len pw"
    and "length pw \<le> 72" and "query_code_by_email st em = Some r"
proof (cases "query_user_by_email st em")
  case None
  with assms show ?thesis by (simp add: password_reset_confirm_def)
next
  case u: (Some u)
  show ?thesis
  proof (cases "len pw < 8")
    case True
    with assms u show ?thesis by (simp add: password_reset_confirm_def)
  next
    case False
    show ?thesis
    proof (cases "72 < length pw")
      case True
      with assms u False show ?thesis
        by (simp add: password_reset_confirm_def bcrypt_hashpw_def)
    next
      case short: False
      show ?thesis
      proof (cases "query_code_by_email st em")
        case None
        with assms u False short show ?thesis
          by (simp add: password_reset_confirm_def delete_code_def bcrypt_hashpw_def)
      next
        case (Some r)
        with u False short that show ?thesis by simp
      qed
    qed
  qed
qed

lemma confirm_replaces_hash:
  assumes "query_user_by_email st em = Some u" and "8 \<le> len pw" and "length pw \<le> 72"
    and "query_code_by_email st em = Some r"
  shows "query_user_by_email (snd (password_reset_confirm lib e st em pw)) em
          = Some (u\<lparr>password := hashpw lib pw (gensalt e)\<rparr>)"
proof -
  have em: "User.email u = em" using assms(1) by (simp add: query_user_by_email_Some)
  have "find (\<lambda>x. User.email x = em)
          (map (\<lambda>x. if user_id x = user_id u then u\<lparr>password := hashpw lib pw (gensalt e)\<rparr> else x) (users st))
        = Some (u\<lparr>password := hashpw lib pw (gensalt e)\<rparr>)"
    using assms(1) em by (intro find_update_same_key) (simp_all add: query_user_by_email_def)
  then show ?thesis
    unfolding confirm_with_record [OF assms] by (simp add: query_user_by_email_def)
qed

text \<open>
  The two reset codes of the concrete instance for \<open>a@x.com\<close> are what two requests for that
  address store when the random source yields the same number twice.
\<close>

lemma demo_codes_issued:
  "snd (password_reset_request
          \<lparr>utcnow = 100, db_now = 100, entropy = 23456, uuid4 = ''id-3'', gensalt = []\<rparr>
          (snd (password_reset_request
                  \<lparr>utcnow = 10, db_now = 10, entropy = 23456, uuid4 = ''id-2'', gensalt = []\<rparr>
                  \<lparr>users = [alice], password_reset_codes = [], session = Map.empty,
                    background_tasks = []\<rparr> ''a@x.com''))
          ''a@x.com'')
   = \<lparr>users = [alice], password_reset_codes = [code_old, code_new], session = Map.empty,
      background_tasks =
        [(''a@x.com'', ''[service] password reset verification code'',
          ''verification code: 123456'' @ [CHR 0x0A] @ ''enter within 5 minutes''),
         (''a@x.com'', ''[service] password reset verification code'',
          ''verification code: 123456'' @ [CHR 0x0A] @ ''enter within 5 minutes'')]\<rparr>"
  by (simp add: password_reset_request_def query_user_by_email_def insert_code_def
      timedelta_minutes_def randint_def randbelow_def str_def str_nat.simps digit_char_def
      Let_def alice_def code_old_def code_new_def)

section \<open>Registration\<close>

lemma register_cases:
  "(\<forall>u. query_user_by_email st em = Some u \<longrightarrow>
      register lib e st em pw = (Inl (HTTPException 400 ''email already exists''), st))
   \<and> (query_user_by_email st em = None \<and> len pw < 8 \<longrightarrow>
      register lib e st em pw
        = (Inl (HTTPException 400 ''password must be at least 8 characters''), st))
   \<and> (query_user_by_email st em = None \<and> 8 \<le> len pw \<and> 72 < length pw \<longrightarrow>
      register lib e st em pw = (Inl ValueError, st))
   \<and> (query_user_by_email st em = None \<and> 8 \<le> len pw \<and> length pw \<le> 72 \<and>
       uuid4 e \<notin> set (map user_id (users st)) \<longrightarrow>
      register lib e st em pw =
        (Inr [(''success'', JBool True), (''message'', JStr ''registration complete''),
              (''user_id'', JStr (uuid4 e))],
         st\<lparr>users := users st @
               [\<lparr>user_id = uuid4 e, User.email = em, password = hashpw lib pw (gensalt e),
                 role = ''user'', is_active = True, last_login = None,
                 User.created_at = db_now e\<rparr>]\<rparr>))"
proof (intro conjI allI impI)
  fix u assume "query_user_by_email st em = Some u"
  then show "register lib e st em pw = (Inl (HTTPException 400 ''email already exists''), st)"
    by (simp add: register_def)
next
  assume "query_user_by_email st em = None \<and> len pw < 8"
  then show "register lib e st em pw
        = (Inl (HTTPException 400 ''password must be at least 8 characters''), st)"
    by (simp add: register_def)
next
  assume "query_user_by_email st em = None \<and> 8 \<le> len pw \<and> 72 < length pw"
  then show "register lib e st em pw = (Inl ValueError, st)"
    by (simp add: register_def bcrypt_hashpw_def)
next
  assume a: "query_user_by_email st em = None \<and> 8 \<le> len pw \<and> length pw \<le> 72 \<and>
       uuid4 e \<notin> set (map user_id (users st))"
  then have "em \<notin> set (map User.email (users st))" using query_user_by_email_None by blast
  with a show "register lib e st em pw =
        (Inr [(''success'', JBool True), (''message'', JStr ''registration complete''),
              (''user_id'', JStr (uuid4 e))],
         st\<lparr>users := users st @
               [\<lparr>user_id = uuid4 e, User.email = em, password = hashpw lib pw (gensalt e),
                 role = ''user'', is_active = True, last_login = None,
                 User.created_at = db_now e\<rparr>]\<rparr>)"
    by (simp add: register_def insert_user_def bcrypt_hashpw_def)
qed

lemma register_twice:
  assumes "register lib e st em pw = (Inr resp, st')"
  shows "register lib' e' st' em pw' = (Inl (HTTPException 400 ''email already exists''), st')"
proof -
  let ?u = "\<lparr>user_id = uuid4 e, User.email = em, password = hashpw lib pw (gensalt e),
                 role = ''user'', is_active = True, last_login = None,
                 User.created_at = db_now e\<rparr>"
  from assms have n: "query_user_by_email st em = None"
    by (cases "query_user_by_email st em") (simp_all add: register_def)
  from assms n have st': "st' = st\<lparr>users := users st @ [?u]\<rparr>"
    by (auto simp: register_def insert_user_def bcrypt_hashpw_def Let_def split: if_splits)
  have "query_user_by_email st' em = Some ?u"
    unfolding st' using n by (rule query_user_by_email_append) simp
  then show ?thesis by (simp add: register_def)
qed

lemma register_example:
  "register demo_bcrypt demo_env demo_state ''a@x.com'' ''short''
     = (Inl (HTTPException 400 ''email already exists''), demo_state)
   \<and> fst (register demo_bcrypt demo_env demo_state ''b@x.com'' ''password2'')
     = Inr [(''success'', JBool True), (''message'', JStr ''registration complete''),
            (''user_id'', JStr ''id-9'')]"
  by (simp add: register_def query_user_by_email_def insert_user_def bcrypt_hashpw_def
      len_def utf8_continuation_def demo_defs)

text \<open>
  C5. The address \<open>b@x.com\<close> has no account and the password has 73 characters, all ASCII, so
  it passes the length check of \<^verbatim>\<open>register\<close>. \<^verbatim>\<open>bcrypt.hashpw\<close> refuses it, the exception is not
  caught, and no row is stored. (The address is looked up before the password is looked at,
  and with a password of at least 8 characters and at most 72 bytes the registration
  succeeds and returns the new row's identifier: \<open>register_cases\<close>, \<open>register_twice\<close>.)
\<close>

theorem register_long_password_fails:
  "query_user_by_email demo_state ''b@x.com'' = None
   \<and> len (replicate 73 (CHR ''x'')) = 73
   \<and> register lib e demo_state ''b@x.com'' (replicate 73 (CHR ''x''))
       = (Inl ValueError, demo_state)"
  by (simp add: register_def query_user_by_email_def bcrypt_hashpw_def len_replicate_ascii
      demo_defs)

section \<open>Login\<close>

lemma login_cases:
  "(query_user_by_email st em = None \<longrightarrow>
      login lib e st em pw = (Inl (HTTPException 401 ''email or password is incorrect''), st))
   \<and> (\<forall>u. query_user_by_email st em = Some u \<and> 72 < length pw \<longrightarrow>
      login lib e st em pw = (Inl ValueError, st))
   \<and> (\<forall>u. query_user_by_email st em = Some u \<and> length pw \<le> 72 \<and> \<not> checkpw lib pw (password u) \<longrightarrow>
      login lib e st em pw = (Inl (HTTPException 401 ''email or password is incorrect''), st))"
  by (simp add: login_def bcrypt_checkpw_def)

text \<open>
  C3. The account \<open>a@x.com\<close> exists, the address \<open>nobody@x.com\<close> has none, and the password
  has 73 characters. For the unknown address \<^verbatim>\<open>login\<close> raises status 401 before it looks at the
  password. For the known address it calls \<^verbatim>\<open>bcrypt.checkpw\<close>, which refuses the password; the
  exception is not caught. The two outcomes differ, so the caller learns which address has
  an account. (With a password of at most 72 bytes the two failures are the same exception:
  \<open>login_cases\<close>.)
\<close>

theorem login_long_password_distinguishes:
  "login lib e demo_state ''a@x.com'' (replicate 73 (CHR ''x'')) = (Inl ValueError, demo_state)
   \<and> login lib e demo_state ''nobody@x.com'' (replicate 73 (CHR ''x''))
       = (Inl (HTTPException 401 ''email or password is incorrect''), demo_state)"
  by (simp add: login_def query_user_by_email_def bcrypt_checkpw_def demo_defs)

text \<open>
  C9. A failing login returns the state it was given: no session key is written and no
  row changes. A successful login is the only path that writes: it binds \<open>user_id\<close> and
  \<open>email\<close> in the session to the account found and sets that account's \<open>last_login\<close> to the
  current time.
\<close>

theorem login_failure_leaves_state:
  "(\<forall>x. fst (login lib e st em pw) = Inl x \<longrightarrow> snd (login lib e st em pw) = st) \<and>
   (\<forall>resp. fst (login lib e st em pw) = Inr resp \<longrightarrow>
      (\<exists>user. query_user_by_email st em = Some user \<and> checkpw lib pw (password user) \<and>
         session (snd (login lib e st em pw)) ''user_id'' = Some (user_id user) \<and>
         session (snd (login lib e st em pw)) ''email'' = Some (User.email user) \<and>
         query_user_by_email (snd (login lib e st em pw)) em
           = Some (user\<lparr>last_login := Some (utcnow e)\<rparr>)))"
proof (cases "query_user_by_email st em")
  case None
  then show ?thesis by (simp add: login_def)
next
  case (Some user)
  show ?thesis
  proof (cases "72 < length pw")
    case True
    with Some show ?thesis by (simp add: login_def bcrypt_checkpw_def)
  next
    case short: False
    show ?thesis
    proof (cases "checkpw lib pw (password user)")
      case False
      with Some short show ?thesis by (simp add: login_def bcrypt_checkpw_def)
    next
      case True
      let ?st1 = "st\<lparr>session := (session st)(''user_id'' \<mapsto> user_id user, ''email'' \<mapsto> User.email user)\<rparr>"
      let ?u = "user\<lparr>last_login := Some (utcnow e)\<rparr>"
      have l: "login lib e st em pw =
          (Inr [(''success'', JBool True), (''message'', JStr ''login success'')], update_user ?u ?st1)"
        using Some True short by (simp add: login_def bcrypt_checkpw_def)
      have em: "User.email user = em" using Some by (simp add: query_user_by_email_Some)
      have q1: "query_user_by_email ?st1 em = Some user"
        using Some by (simp add: query_user_by_email_def)
      have q: "query_user_by_email (update_user ?u ?st1) em = Some ?u"
        using q1 em by (intro query_user_by_email_update) simp_all
      have s: "session (update_user ?u ?st1) = (session st)(''user_id'' \<mapsto> user_id user, ''email'' \<mapsto> User.email user)"
        by (simp add: update_user_def)
      show ?thesis unfolding l using Some True q s by simp
    qed
  qed
qed

theorem login_failure_leaves_state_witness:
  "fst (login demo_bcrypt demo_env demo_state ''a@x.com'' ''wrong'')
     = Inl (HTTPException 401 ''email or password is incorrect'')
   \<and> snd (login demo_bcrypt demo_env demo_state ''a@x.com'' ''wrong'') = demo_state
   \<and> fst (login demo_bcrypt demo_env demo_state ''a@x.com'' ''password1'')
     = Inr [(''success'', JBool True), (''message'', JStr ''login success'')]
   \<and> query_user_by_email (snd (login demo_bcrypt demo_env demo_state ''a@x.com'' ''password1'')) ''a@x.com''
     = Some (alice\<lparr>last_login := Some 350\<rparr>)"
proof -
  have f: "fst (login demo_bcrypt demo_env demo_state ''a@x.com'' ''wrong'')
     = Inl (HTTPException 401 ''email or password is incorrect'')"
    by (simp add: login_def query_user_by_email_def bcrypt_checkpw_def demo_defs)
  have s: "fst (login demo_bcrypt demo_env demo_state ''a@x.com'' ''password1'')
     = Inr [(''success'', JBool True), (''message'', JStr ''login success'')]"
    by (simp add: login_def query_user_by_email_def bcrypt_checkpw_def demo_defs)
  have q: "query_user_by_email demo_state ''a@x.com'' = Some alice"
    by (simp add: query_user_by_email_def demo_defs)
  have u: "utcnow demo_env = 350" by (simp add: demo_defs)
  from login_failure_leaves_state [of demo_bcrypt demo_env demo_state "''a@x.com''" "''wrong''"] f
  have a: "snd (login demo_bcrypt demo_env demo_state ''a@x.com'' ''wrong'') = demo_state"
    by blast
  from login_failure_leaves_state [of demo_bcrypt demo_env demo_state "''a@x.com''" "''password1''"] s
  have b: "query_user_by_email (snd (login demo_bcrypt demo_env demo_state ''a@x.com'' ''password1'')) ''a@x.com''
     = Some (alice\<lparr>last_login := Some 350\<rparr>)"
    using q u by auto
  show ?thesis using f s a b by simp
qed

section \<open>Current user\<close>

text \<open>
  C7. When the session carries a \<open>user_id\<close> that no row of \<^verbatim>\<open>users\<close> has, \<^verbatim>\<open>me\<close> raises
  status 401 (\<open>invalid user\<close>) and clears the session; the next call on that session finds no
  \<open>user_id\<close> and raises status 401 with the detail of the not-logged-in case
  (\<open>login required\<close>).
\<close>

theorem me_clears_orphaned_session:
  assumes "session st ''user_id'' = Some uid" and "uid \<noteq> []"
    and "query_user_by_id st uid = None"
  shows "me st = (Inl (HTTPException 401 ''invalid user''), st\<lparr>session := Map.empty\<rparr>)
       \<and> session (snd (me st)) = Map.empty
       \<and> me (snd (me st)) = (Inl (HTTPException 401 ''login required''), snd (me st))"
proof -
  have 1: "me st = (Inl (HTTPException 401 ''invalid user''), st\<lparr>session := Map.empty\<rparr>)"
    using assms by (simp add: me_def falsy_def)
  have 2: "me (st\<lparr>session := Map.empty\<rparr>)
      = (Inl (HTTPException 401 ''login required''), st\<lparr>session := Map.empty\<rparr>)"
    by (simp add: me_def falsy_def)
  show ?thesis using 1 2 by simp
qed

theorem me_clears_orphaned_session_witness:
  "session (demo_state\<lparr>session := [''user_id'' \<mapsto> ''id-7'']\<rparr>) ''user_id'' = Some ''id-7''
   \<and> ''id-7'' \<noteq> []
   \<and> query_user_by_id (demo_state\<lparr>session := [''user_id'' \<mapsto> ''id-7'']\<rparr>) ''id-7'' = None
   \<and> me (demo_state\<lparr>session := [''user_id'' \<mapsto> ''id-7'']\<rparr>)
       = (Inl (HTTPException 401 ''invalid user''), demo_state)
   \<and> me (snd (me (demo_state\<lparr>session := [''user_id'' \<mapsto> ''id-7'']\<rparr>)))
       = (Inl (HTTPException 401 ''login required''), demo_state)"
proof -
  let ?st = "demo_state\<lparr>session := [''user_id'' \<mapsto> ''id-7'']\<rparr>"
  have h1: "session ?st ''user_id'' = Some ''id-7''" by simp
  have h2: "''id-7'' \<noteq> []" by simp
  have h3: "query_user_by_id ?st ''id-7'' = None"
    by (simp add: query_user_by_id_def demo_defs)
  have c: "?st\<lparr>session := Map.empty\<rparr> = demo_state" by (simp add: demo_state_def)
  note t = me_clears_orphaned_session [OF h1 h2 h3]
  from t have a0: "me ?st = (Inl (HTTPException 401 ''invalid user''), ?st\<lparr>session := Map.empty\<rparr>)"
    by blast
  have a: "me ?st = (Inl (HTTPException 401 ''invalid user''), demo_state)"
    using a0 unfolding c .
  have s: "snd (me ?st) = demo_state" by (simp only: a snd_conv)
  from t have b0: "me (snd (me ?st)) = (Inl (HTTPException 401 ''login required''), snd (me ?st))"
    by blast
  have b: "me (snd (me ?st)) = (Inl (HTTPException 401 ''login required''), demo_state)"
    using b0 unfolding s .
  from h1 h2 h3 a b show ?thesis by blast
qed

section \<open>Password reset: request\<close>

lemma digit_char_code: "d < 10 \<Longrightarrow> of_char (digit_char d) = (48 + d :: nat)"
proof -
  assume "d < 10"
  then have "d \<in> {0, 1, 2, 3, 4, 5, 6, 7, 8, 9}" by auto
  then show ?thesis unfolding digit_char_def by auto
qed

lemma digit_char_inj: "a < 10 \<Longrightarrow> b < 10 \<Longrightarrow> digit_char a = digit_char b \<Longrightarrow> a = b"
proof -
  assume a: "a < 10" and b: "b < 10" and eq: "digit_char a = digit_char b"
  from eq have "(of_char (digit_char a) :: nat) = of_char (digit_char b)" by simp
  with a b show ?thesis by (simp add: digit_char_code)
qed

lemma str_nat_inj: "str_nat n = str_nat m \<Longrightarrow> n = m"
proof (induction n arbitrary: m rule: str_nat.induct)
  case (1 n)
  show ?case
  proof (cases "n < 10")
    case True
    then have "length (str_nat m) = 1" using "1.prems" [symmetric] by (simp add: length_str_nat_small)
    moreover have "1 < length (str_nat m)" if "\<not> m < 10"
    proof -
      have "0 < length (str_nat (m div 10))" using str_nat_nonempty [of "m div 10"] by simp
      with that show ?thesis by (simp add: length_str_nat_step)
    qed
    ultimately have m: "m < 10" by fastforce
    with True "1.prems" have "digit_char n = digit_char m" by (simp add: str_nat.simps)
    with True m show ?thesis by (rule digit_char_inj)
  next
    case False
    have "0 < length (str_nat (n div 10))" using str_nat_nonempty [of "n div 10"] by simp
    with False have "1 < length (str_nat n)" by (simp add: length_str_nat_step)
    then have m: "\<not> m < 10" using "1.prems" length_str_nat_small [of m] by auto
    from False m "1.prems"
    have eq: "str_nat (n div 10) @ [digit_char (n mod 10)] = str_nat (m div 10) @ [digit_char (m mod 10)]"
      by (simp add: str_nat.simps [of n] str_nat.simps [of m])
    then have "str_nat (n div 10) = str_nat (m div 10)" and d: "digit_char (n mod 10) = digit_char (m mod 10)"
      by simp_all
    with False "1.IH" have q: "n div 10 = m div 10" by blast
    have "n mod 10 = m mod 10" using d by (intro digit_char_inj) simp_all
    with q show ?thesis by (metis div_mult_mod_eq)
  qed
qed

lemma str_inj_nonneg: "0 \<le> i \<Longrightarrow> 0 \<le> j \<Longrightarrow> str i = str j \<Longrightarrow> i = j"
  using str_nat_inj [of "nat i" "nat j"] by (simp add: str_def)

lemma randint_period: "randint 100000 999999 (r + 900000) = randint 100000 999999 r"
  by (simp add: randint_def randbelow_def)

lemma randint_block: "r < 900000 \<Longrightarrow> randint 100000 999999 r = 100000 + int r"
  by (simp add: randint_def randbelow_def)

lemma reset_request_entropy:
  assumes "password_reset_request e st em = (Inr resp, st')"
  shows "password_reset_codes (snd (password_reset_request (e\<lparr>entropy := r\<rparr>) st em))
         = password_reset_codes st @
           [\<lparr>code_id = uuid4 e, PasswordResetCode.email = em,
             code = str (randint 100000 999999 r),
             expires_at = utcnow e + 300, PasswordResetCode.created_at = db_now e\<rparr>]"
proof (cases "query_user_by_email st em")
  case None
  with assms show ?thesis by (simp add: password_reset_request_def)
next
  case (Some u)
  with assms have "uuid4 e \<notin> set (map code_id (password_reset_codes st))"
    by (auto simp: password_reset_request_def insert_code_def Let_def split: if_splits)
  with Some show ?thesis
    by (simp add: password_reset_request_def insert_code_def timedelta_minutes_def Let_def)
qed

text \<open>
  C2, as amended. A successful \<^verbatim>\<open>password_reset_request\<close> appends one row. Its code is the
  decimal string of the number drawn by \<^verbatim>\<open>random.randint(100000, 999999)\<close>: six digits, the
  first of which is never \<open>0\<close>, so no zero-padding takes place. The draw is uniform over
  100000 to 999999: for every number of that range exactly one of the 900000 values of a
  period of the random source makes the request store that number's string, and every
  period draws alike. The row's expiry is the time of the request plus 5 minutes.
\<close>

theorem reset_request_code_and_expiry:
  assumes "password_reset_request e st em = (Inr resp, st')"
  shows "password_reset_codes st' = password_reset_codes st @
             [\<lparr>code_id = uuid4 e, PasswordResetCode.email = em,
               code = str (randint 100000 999999 (entropy e)),
               expires_at = utcnow e + 5 * 60, PasswordResetCode.created_at = db_now e\<rparr>]
       \<and> 100000 \<le> randint 100000 999999 (entropy e)
       \<and> randint 100000 999999 (entropy e) \<le> 999999
       \<and> length (str (randint 100000 999999 (entropy e))) = 6
       \<and> set (str (randint 100000 999999 (entropy e))) \<subseteq> set ''0123456789''
       \<and> hd (str (randint 100000 999999 (entropy e))) \<noteq> CHR ''0''
       \<and> (\<forall>n. 100000 \<le> n \<and> n \<le> 999999 \<longrightarrow>
            (\<exists>!r. r < 900000 \<and>
               code (last (password_reset_codes
                             (snd (password_reset_request (e\<lparr>entropy := r\<rparr>) st em)))) = str n))
       \<and> (\<forall>r. code (last (password_reset_codes
                             (snd (password_reset_request (e\<lparr>entropy := r + 900000\<rparr>) st em))))
              = code (last (password_reset_codes
                             (snd (password_reset_request (e\<lparr>entropy := r\<rparr>) st em)))))"
proof -
  let ?n = "randint 100000 999999 (entropy e)"
  let ?c = "\<lambda>r. code (last (password_reset_codes
                             (snd (password_reset_request (e\<lparr>entropy := r\<rparr>) st em))))"
  have n: "100000 \<le> ?n" "?n \<le> 999999" using randint_range [of 100000 999999 "entropy e"] by simp_all
  from n have six: "length (str ?n) = 6" "set (str ?n) \<subseteq> set ''0123456789''" "hd (str ?n) \<noteq> CHR ''0''"
    by (rule str_six_digits)+
  have row: "password_reset_codes st' = password_reset_codes st @
             [\<lparr>code_id = uuid4 e, PasswordResetCode.email = em, code = str ?n,
               expires_at = utcnow e + 5 * 60, PasswordResetCode.created_at = db_now e\<rparr>]"
    using reset_request_success [OF assms] by simp
  have c: "?c r = str (randint 100000 999999 r)" for r
    by (simp add: reset_request_entropy [OF assms])
  have one: "\<exists>!r. r < 900000 \<and> ?c r = str n" if "100000 \<le> n \<and> n \<le> 999999" for n
  proof (rule ex1I [of _ "nat (n - 100000)"])
    have lt: "nat (n - 100000) < 900000" using that by linarith
    have "randint 100000 999999 (nat (n - 100000)) = n"
      using that by (simp add: randint_block [OF lt])
    with lt show "nat (n - 100000) < 900000 \<and> ?c (nat (n - 100000)) = str n"
      by (simp add: c)
  next
    fix r assume r: "r < 900000 \<and> ?c r = str n"
    then have "str (100000 + int r) = str n" using randint_block [of r] by (simp add: c)
    then have "100000 + int r = n" using that by (intro str_inj_nonneg) simp_all
    then show "r = nat (n - 100000)" by simp
  qed
  have period: "?c (r + 900000) = ?c r" for r
    by (simp only: c randint_period)
  show ?thesis using row n six one period by blast
qed

theorem reset_request_code_and_expiry_witness:
  "fst (password_reset_request demo_env demo_state ''a@x.com'')
     = Inr [(''success'', JBool True), (''message'', JStr ''verification code sent by email'')]
   \<and> password_reset_codes (snd (password_reset_request demo_env demo_state ''a@x.com''))
       = [code_old, code_new, code_other,
          \<lparr>code_id = ''id-9'', PasswordResetCode.email = ''a@x.com'', code = ''123456'',
            expires_at = 650, PasswordResetCode.created_at = 350\<rparr>]
   \<and> (\<exists>!r. r < 900000 \<and>
         code (last (password_reset_codes
                       (snd (password_reset_request (demo_env\<lparr>entropy := r\<rparr>) demo_state
                               ''a@x.com'')))) = ''654321'')"
proof -
  have ok: "fst (password_reset_request demo_env demo_state ''a@x.com'')
     = Inr [(''success'', JBool True), (''message'', JStr ''verification code sent by email'')]"
    by (simp add: password_reset_request_def query_user_by_email_def insert_code_def Let_def
        demo_defs)
  then have h: "password_reset_request demo_env demo_state ''a@x.com''
     = (Inr [(''success'', JBool True), (''message'', JStr ''verification code sent by email'')],
        snd (password_reset_request demo_env demo_state ''a@x.com''))"
    by (simp add: prod_eq_iff)
  have v: "uuid4 demo_env = ''id-9''" "utcnow demo_env + 5 * 60 = 650" "db_now demo_env = 350"
    "password_reset_codes demo_state = [code_old, code_new, code_other]"
    by (simp_all add: demo_env_def demo_state_def)
  have d: "str (randint 100000 999999 (entropy demo_env)) = ''123456''"
    by (simp add: demo_env_def randint_def randbelow_def str_def str_nat.simps digit_char_def)
  have s: "str 654321 = ''654321''"
    by (simp add: str_def str_nat.simps digit_char_def)
  note t = reset_request_code_and_expiry [OF h]
  from t have row: "password_reset_codes (snd (password_reset_request demo_env demo_state ''a@x.com''))
       = [code_old, code_new, code_other,
          \<lparr>code_id = ''id-9'', PasswordResetCode.email = ''a@x.com'', code = ''123456'',
            expires_at = 650, PasswordResetCode.created_at = 350\<rparr>]"
    unfolding v d by simp
  from t have "\<forall>n. 100000 \<le> n \<and> n \<le> 999999 \<longrightarrow>
            (\<exists>!r. r < 900000 \<and>
               code (last (password_reset_codes
                             (snd (password_reset_request (demo_env\<lparr>entropy := r\<rparr>) demo_state
                                     ''a@x.com'')))) = str n)"
    by blast
  then have "\<exists>!r. r < 900000 \<and>
               code (last (password_reset_codes
                             (snd (password_reset_request (demo_env\<lparr>entropy := r\<rparr>) demo_state
                                     ''a@x.com'')))) = str 654321"
    by simp
  then have one: "\<exists>!r. r < 900000 \<and>
               code (last (password_reset_codes
                             (snd (password_reset_request (demo_env\<lparr>entropy := r\<rparr>) demo_state
                                     ''a@x.com'')))) = ''654321''"
    unfolding s .
  from ok row one show ?thesis by blast
qed

text \<open>
  The claim as first stated lets the code range over \<open>000000\<close> to \<open>999999\<close>. No successful
  request stores the code \<open>000000\<close>.
\<close>

theorem reset_request_code_range_counterexample:
  "\<not> (\<exists>e st em resp st'. password_reset_request e st em = (Inr resp, st') \<and>
         code (last (password_reset_codes st')) = ''000000'')"
proof
  assume "\<exists>e st em resp st'. password_reset_request e st em = (Inr resp, st') \<and>
         code (last (password_reset_codes st')) = ''000000''"
  then obtain e st em resp st' where ok: "password_reset_request e st em = (Inr resp, st')"
    and c: "code (last (password_reset_codes st')) = ''000000''" by blast
  let ?n = "randint 100000 999999 (entropy e)"
  have "100000 \<le> ?n" "?n \<le> 999999" using randint_range [of 100000 999999 "entropy e"] by simp_all
  then have "hd (str ?n) \<noteq> CHR ''0''" by (rule str_six_digits)
  moreover have "str ?n = ''000000''" using c reset_request_success [OF ok] by simp
  ultimately show False by simp
qed

section \<open>Password reset: verifying a code\<close>

lemma query_code_latest:
  assumes "r \<in> set (password_reset_codes st)" and "PasswordResetCode.email r = em" and "code r = c"
    and "\<forall>x \<in> set (password_reset_codes st).
            PasswordResetCode.email x = em \<and> code x = c \<and> x \<noteq> r \<longrightarrow>
            PasswordResetCode.created_at x < PasswordResetCode.created_at r"
  shows "query_code_by_email_code st em c = Some r"
proof -
  let ?rs = "filter (\<lambda>r. PasswordResetCode.email r = em \<and> code r = c) (password_reset_codes st)"
  have "r \<in> set ?rs" using assms(1-3) by simp
  moreover have "\<forall>x\<in>set ?rs. x \<noteq> r \<longrightarrow> PasswordResetCode.created_at x < PasswordResetCode.created_at r"
    using assms(4) by simp
  ultimately have "order_by_created_at_desc_first ?rs = Some r" by (rule first_strict_max)
  then show ?thesis by (simp add: query_code_by_email_code_def)
qed

text \<open>
  C4, as amended. \<^verbatim>\<open>password_reset_verify_code\<close> judges the most recently created row that
  matches both the e-mail address and the code, and no other. When that row's expiry is in
  the past the call raises status 400 \<open>verification code expired\<close>; so it does, in
  particular, when every matching row has expired. When that row has not expired the call
  succeeds, whether or not older matching rows have expired. The detail
  \<open>invalid verification code\<close> is raised exactly when no row matches, and success is
  reported only when the row that was judged has not expired.
\<close>

theorem verify_code_latest_expired:
  "(\<forall>r. r \<in> set (password_reset_codes st) \<and> PasswordResetCode.email r = em \<and> code r = c \<and>
        expires_at r < utcnow e \<and>
        (\<forall>x \<in> set (password_reset_codes st).
            PasswordResetCode.email x = em \<and> code x = c \<and> x \<noteq> r \<longrightarrow>
            PasswordResetCode.created_at x < PasswordResetCode.created_at r) \<longrightarrow>
      password_reset_verify_code e st em c
        = (Inl (HTTPException 400 ''verification code expired''), st))
   \<and> (\<forall>r. r \<in> set (password_reset_codes st) \<and> PasswordResetCode.email r = em \<and> code r = c \<and>
        utcnow e \<le> expires_at r \<and>
        (\<forall>x \<in> set (password_reset_codes st).
            PasswordResetCode.email x = em \<and> code x = c \<and> x \<noteq> r \<longrightarrow>
            PasswordResetCode.created_at x < PasswordResetCode.created_at r) \<longrightarrow>
      password_reset_verify_code e st em c
        = (Inr [(''success'', JBool True), (''message'', JStr ''verification code confirmed'')], st))
   \<and> ((\<exists>x \<in> set (password_reset_codes st). PasswordResetCode.email x = em \<and> code x = c) \<and>
       (\<forall>x \<in> set (password_reset_codes st).
            PasswordResetCode.email x = em \<and> code x = c \<longrightarrow> expires_at x < utcnow e) \<longrightarrow>
      password_reset_verify_code e st em c
        = (Inl (HTTPException 400 ''verification code expired''), st))
   \<and> (fst (password_reset_verify_code e st em c) = Inl (HTTPException 400 ''invalid verification code'')
        \<longleftrightarrow> (\<forall>x \<in> set (password_reset_codes st). \<not> (PasswordResetCode.email x = em \<and> code x = c)))
   \<and> (\<forall>resp. fst (password_reset_verify_code e st em c) = Inr resp \<longrightarrow>
        (\<exists>r. query_code_by_email_code st em c = Some r \<and> utcnow e \<le> expires_at r))"
proof (intro conjI allI impI)
  fix r
  assume a: "r \<in> set (password_reset_codes st) \<and> PasswordResetCode.email r = em \<and> code r = c \<and>
        expires_at r < utcnow e \<and>
        (\<forall>x \<in> set (password_reset_codes st).
            PasswordResetCode.email x = em \<and> code x = c \<and> x \<noteq> r \<longrightarrow>
            PasswordResetCode.created_at x < PasswordResetCode.created_at r)"
  then have "query_code_by_email_code st em c = Some r" by (intro query_code_latest) simp_all
  with a show "password_reset_verify_code e st em c
        = (Inl (HTTPException 400 ''verification code expired''), st)"
    by (simp add: password_reset_verify_code_def)
next
  fix r
  assume a: "r \<in> set (password_reset_codes st) \<and> PasswordResetCode.email r = em \<and> code r = c \<and>
        utcnow e \<le> expires_at r \<and>
        (\<forall>x \<in> set (password_reset_codes st).
            PasswordResetCode.email x = em \<and> code x = c \<and> x \<noteq> r \<longrightarrow>
            PasswordResetCode.created_at x < PasswordResetCode.created_at r)"
  then have "query_code_by_email_code st em c = Some r" by (intro query_code_latest) simp_all
  with a show "password_reset_verify_code e st em c
        = (Inr [(''success'', JBool True), (''message'', JStr ''verification code confirmed'')], st)"
    by (simp add: password_reset_verify_code_def)
next
  assume a: "(\<exists>x \<in> set (password_reset_codes st). PasswordResetCode.email x = em \<and> code x = c) \<and>
       (\<forall>x \<in> set (password_reset_codes st).
            PasswordResetCode.email x = em \<and> code x = c \<longrightarrow> expires_at x < utcnow e)"
  then have "query_code_by_email_code st em c \<noteq> None"
    by (auto simp: query_code_by_email_code_def first_None_iff filter_empty_conv)
  then obtain m where m: "query_code_by_email_code st em c = Some m" by blast
  from query_code_by_email_code_Some [OF m] a have "expires_at m < utcnow e" by blast
  with m show "password_reset_verify_code e st em c
        = (Inl (HTTPException 400 ''verification code expired''), st)"
    by (simp add: password_reset_verify_code_def)
next
  have "query_code_by_email_code st em c = None \<longleftrightarrow>
        (\<forall>x \<in> set (password_reset_codes st). \<not> (PasswordResetCode.email x = em \<and> code x = c))"
    by (auto simp: query_code_by_email_code_def first_None_iff filter_empty_conv)
  moreover have "fst (password_reset_verify_code e st em c) = Inl (HTTPException 400 ''invalid verification code'')
        \<longleftrightarrow> query_code_by_email_code st em c = None"
    by (simp add: password_reset_verify_code_def split: option.splits)
  ultimately show "fst (password_reset_verify_code e st em c) = Inl (HTTPException 400 ''invalid verification code'')
        \<longleftrightarrow> (\<forall>x \<in> set (password_reset_codes st). \<not> (PasswordResetCode.email x = em \<and> code x = c))"
    by simp
next
  fix resp assume "fst (password_reset_verify_code e st em c) = Inr resp"
  then show "\<exists>r. query_code_by_email_code st em c = Some r \<and> utcnow e \<le> expires_at r"
    by (auto simp: password_reset_verify_code_def split: option.splits if_splits)
qed

theorem verify_code_latest_expired_witness:
  "code_other \<in> set (password_reset_codes demo_state)
   \<and> PasswordResetCode.email code_other = ''b@x.com'' \<and> code code_other = ''654321''
   \<and> expires_at code_other < utcnow demo_env
   \<and> password_reset_verify_code demo_env demo_state ''b@x.com'' ''654321''
       = (Inl (HTTPException 400 ''verification code expired''), demo_state)
   \<and> code_new \<in> set (password_reset_codes demo_state)
   \<and> utcnow demo_env \<le> expires_at code_new
   \<and> password_reset_verify_code demo_env demo_state ''a@x.com'' ''123456''
       = (Inr [(''success'', JBool True), (''message'', JStr ''verification code confirmed'')],
          demo_state)
   \<and> fst (password_reset_verify_code demo_env demo_state ''b@x.com'' ''000000'')
       = Inl (HTTPException 400 ''invalid verification code'')"
proof -
  have h: "code_other \<in> set (password_reset_codes demo_state) \<and>
        PasswordResetCode.email code_other = ''b@x.com'' \<and> code code_other = ''654321'' \<and>
        expires_at code_other < utcnow demo_env \<and>
        (\<forall>x \<in> set (password_reset_codes demo_state).
            PasswordResetCode.email x = ''b@x.com'' \<and> code x = ''654321'' \<and> x \<noteq> code_other \<longrightarrow>
            PasswordResetCode.created_at x < PasswordResetCode.created_at code_other)"
    by (simp add: demo_defs)
  have l: "code_new \<in> set (password_reset_codes demo_state) \<and>
        PasswordResetCode.email code_new = ''a@x.com'' \<and> code code_new = ''123456'' \<and>
        utcnow demo_env \<le> expires_at code_new \<and>
        (\<forall>x \<in> set (password_reset_codes demo_state).
            PasswordResetCode.email x = ''a@x.com'' \<and> code x = ''123456'' \<and> x \<noteq> code_new \<longrightarrow>
            PasswordResetCode.created_at x < PasswordResetCode.created_at code_new)"
    by (simp add: demo_defs)
  have n: "\<forall>x \<in> set (password_reset_codes demo_state).
      \<not> (PasswordResetCode.email x = ''b@x.com'' \<and> code x = ''000000'')"
    by (simp add: demo_defs)
  from verify_code_latest_expired [of demo_state "''b@x.com''" "''654321''" demo_env] h
  have 1: "password_reset_verify_code demo_env demo_state ''b@x.com'' ''654321''
       = (Inl (HTTPException 400 ''verification code expired''), demo_state)"
    by blast
  from verify_code_latest_expired [of demo_state "''a@x.com''" "''123456''" demo_env] l
  have 2: "password_reset_verify_code demo_env demo_state ''a@x.com'' ''123456''
       = (Inr [(''success'', JBool True), (''message'', JStr ''verification code confirmed'')],
          demo_state)"
    by blast
  from verify_code_latest_expired [of demo_state "''b@x.com''" "''000000''" demo_env] n
  have 3: "fst (password_reset_verify_code demo_env demo_state ''b@x.com'' ''000000'')
       = Inl (HTTPException 400 ''invalid verification code'')"
    by blast
  show ?thesis using h l 1 2 3 by simp
qed

text \<open>
  The claim as first stated speaks of every expired row. In the concrete instance the row
  \<open>code_old\<close> has expired and matches the address and the code, and the call succeeds: a
  later row with the same address and code, not yet expired, is the one that is judged.
\<close>

theorem verify_code_expired_record_counterexample:
  "code_old \<in> set (password_reset_codes demo_state)
   \<and> PasswordResetCode.email code_old = ''a@x.com'' \<and> code code_old = ''123456''
   \<and> expires_at code_old < utcnow demo_env
   \<and> password_reset_verify_code demo_env demo_state ''a@x.com'' ''123456''
       = (Inr [(''success'', JBool True), (''message'', JStr ''verification code confirmed'')],
          demo_state)"
  by (simp add: password_reset_verify_code_def query_code_by_email_code_def demo_defs)

text \<open>
  C6. \<^verbatim>\<open>password_reset_verify_code\<close> returns the state it was given, on every path. After a
  success the matched row is therefore still in the table, and the same call succeeds again
  at any time up to that row's expiry.
\<close>

theorem verify_code_read_only:
  "snd (password_reset_verify_code e st em c) = st \<and>
   (\<forall>resp. fst (password_reset_verify_code e st em c) = Inr resp \<longrightarrow>
      (\<exists>r \<in> set (password_reset_codes (snd (password_reset_verify_code e st em c))).
          PasswordResetCode.email r = em \<and> code r = c \<and> utcnow e \<le> expires_at r \<and>
          (\<forall>e'. utcnow e' \<le> expires_at r \<longrightarrow>
             password_reset_verify_code e' (snd (password_reset_verify_code e st em c)) em c
               = (Inr resp, st))))"
proof -
  have frame: "snd (password_reset_verify_code e st em c) = st"
    by (simp add: password_reset_verify_code_def split: option.splits)
  have again: "\<exists>r \<in> set (password_reset_codes st).
          PasswordResetCode.email r = em \<and> code r = c \<and> utcnow e \<le> expires_at r \<and>
          (\<forall>e'. utcnow e' \<le> expires_at r \<longrightarrow>
             password_reset_verify_code e' st em c = (Inr resp, st))"
    if ok: "fst (password_reset_verify_code e st em c) = Inr resp" for resp
  proof (cases "query_code_by_email_code st em c")
    case None
    with ok show ?thesis by (simp add: password_reset_verify_code_def)
  next
    case (Some r)
    with ok have live: "utcnow e \<le> expires_at r"
      and resp: "resp = [(''success'', JBool True), (''message'', JStr ''verification code confirmed'')]"
      by (auto simp: password_reset_verify_code_def split: if_splits)
    have "\<forall>e'. utcnow e' \<le> expires_at r \<longrightarrow> password_reset_verify_code e' st em c = (Inr resp, st)"
      using Some resp by (simp add: password_reset_verify_code_def)
    with live query_code_by_email_code_Some [OF Some] show ?thesis by blast
  qed
  show ?thesis unfolding frame using again by blast
qed

theorem verify_code_read_only_witness:
  "fst (password_reset_verify_code demo_env demo_state ''a@x.com'' ''123456'')
     = Inr [(''success'', JBool True), (''message'', JStr ''verification code confirmed'')]
   \<and> snd (password_reset_verify_code demo_env demo_state ''a@x.com'' ''123456'') = demo_state
   \<and> (\<exists>r \<in> set (password_reset_codes demo_state).
         PasswordResetCode.email r = ''a@x.com'' \<and> code r = ''123456'' \<and>
         utcnow demo_env \<le> expires_at r \<and>
         password_reset_verify_code demo_env
           (snd (password_reset_verify_code demo_env demo_state ''a@x.com'' ''123456''))
           ''a@x.com'' ''123456''
         = (Inr [(''success'', JBool True), (''message'', JStr ''verification code confirmed'')],
            demo_state))"
proof -
  have ok: "fst (password_reset_verify_code demo_env demo_state ''a@x.com'' ''123456'')
     = Inr [(''success'', JBool True), (''message'', JStr ''verification code confirmed'')]"
    by (simp add: password_reset_verify_code_def query_code_by_email_code_def demo_defs)
  note t = verify_code_read_only [of demo_env demo_state "''a@x.com''" "''123456''"]
  from t have frame: "snd (password_reset_verify_code demo_env demo_state ''a@x.com'' ''123456'') = demo_state"
    by blast
  from t ok frame have "\<exists>r \<in> set (password_reset_codes demo_state).
         PasswordResetCode.email r = ''a@x.com'' \<and> code r = ''123456'' \<and>
         utcnow demo_env \<le> expires_at r \<and>
         (\<forall>e'. utcnow e' \<le> expires_at r \<longrightarrow>
            password_reset_verify_code e' demo_state ''a@x.com'' ''123456''
            = (Inr [(''success'', JBool True), (''message'', JStr ''verification code confirmed'')],
               demo_state))"
    by simp
  then show ?thesis using ok frame by auto
qed

section \<open>Password reset: confirm\<close>

text \<open>
  C1. The account \<open>a@x.com\<close> exists, the new password has nine characters, and the table of
  reset codes holds no row for the address. \<^verbatim>\<open>password_reset_confirm\<close> then hands \<^verbatim>\<open>None\<close> to
  \<^verbatim>\<open>db.delete\<close>, which raises; nothing is committed and the stored hash stays as it was.
  (With at least one row for the address, and a password the library accepts, the call
  succeeds whatever the row's code and expiry: \<open>confirm_with_record\<close>,
  \<open>confirm_replaces_hash\<close>.)
\<close>

theorem password_reset_confirm_without_code_fails:
  "password_reset_confirm lib e (demo_state\<lparr>password_reset_codes := []\<rparr>) ''a@x.com'' ''newpass12''
     = (Inl UnmappedInstanceError, demo_state\<lparr>password_reset_codes := []\<rparr>)"
  by (simp add: password_reset_confirm_def delete_code_def query_user_by_email_def
      query_code_by_email_def bcrypt_hashpw_def len_def utf8_continuation_def demo_defs)

text \<open>
  C10. A successful \<^verbatim>\<open>password_reset_confirm\<close> removes exactly one row of
  \<^verbatim>\<open>password_reset_codes\<close>: a row for the given address that no other row for that address
  is younger than. Every other row, for this address or another, stays. While a row for the
  address remains, the same confirm succeeds again, and so does a confirm with any other
  password that passes the checks the first one passed (at least 8 characters, at most 72
  bytes).
\<close>

theorem confirm_deletes_latest_only:
  assumes "db_constraints st"
    and "password_reset_confirm lib e st em pw = (Inr resp, st')"
  shows "(\<exists>r \<in> set (password_reset_codes st).
           PasswordResetCode.email r = em \<and>
           (\<forall>x\<in>set (password_reset_codes st). PasswordResetCode.email x = em \<longrightarrow>
               PasswordResetCode.created_at x \<le> PasswordResetCode.created_at r) \<and>
           password_reset_codes st' = remove1 r (password_reset_codes st) \<and>
           length (password_reset_codes st') + 1 = length (password_reset_codes st) \<and>
           (\<forall>x\<in>set (password_reset_codes st). x \<noteq> r \<longrightarrow> x \<in> set (password_reset_codes st')))
       \<and> ((\<exists>x\<in>set (password_reset_codes st'). PasswordResetCode.email x = em) \<longrightarrow>
           fst (password_reset_confirm lib e st' em pw)
             = Inr [(''success'', JBool True), (''message'', JStr ''password reset complete'')] \<and>
           (\<forall>lib' e' pw'. 8 \<le> len pw' \<and> length pw' \<le> 72 \<longrightarrow>
              fst (password_reset_confirm lib' e' st' em pw')
                = Inr [(''success'', JBool True), (''message'', JStr ''password reset complete'')]))"
proof -
  from assms(2) obtain u r where u: "query_user_by_email st em = Some u" and pw: "8 \<le> len pw"
    and pw72: "length pw \<le> 72" and r: "query_code_by_email st em = Some r"
    by (rule confirm_success_cases)
  have st': "st' = snd (password_reset_confirm lib e st em pw)" using assms(2) by simp
  note rr = query_code_by_email_Some [OF r]
  have d: "distinct (map code_id (password_reset_codes st))"
    using assms(1) by (simp add: db_constraints_def)
  then have d': "distinct (password_reset_codes st)" by (simp add: distinct_map)
  have codes: "password_reset_codes st' = remove1 r (password_reset_codes st)"
    unfolding st' confirm_with_record [OF u pw pw72 r] using d rr by (simp add: filter_key_remove1)
  have len: "length (password_reset_codes st') + 1 = length (password_reset_codes st)"
  proof -
    from rr have "r \<in> set (password_reset_codes st)" by simp
    then have "0 < length (password_reset_codes st)" by (cases "password_reset_codes st") auto
    with \<open>r \<in> set (password_reset_codes st)\<close> show ?thesis
      unfolding codes by (simp add: length_remove1)
  qed
  have rest: "\<forall>x\<in>set (password_reset_codes st). x \<noteq> r \<longrightarrow> x \<in> set (password_reset_codes st')"
    unfolding codes using d' by simp
  have first: "\<exists>r \<in> set (password_reset_codes st).
           PasswordResetCode.email r = em \<and>
           (\<forall>x\<in>set (password_reset_codes st). PasswordResetCode.email x = em \<longrightarrow>
               PasswordResetCode.created_at x \<le> PasswordResetCode.created_at r) \<and>
           password_reset_codes st' = remove1 r (password_reset_codes st) \<and>
           length (password_reset_codes st') + 1 = length (password_reset_codes st) \<and>
           (\<forall>x\<in>set (password_reset_codes st). x \<noteq> r \<longrightarrow> x \<in> set (password_reset_codes st'))"
    using rr codes len rest by blast
  have u': "query_user_by_email st' em = Some (u\<lparr>password := hashpw lib pw (gensalt e)\<rparr>)"
    unfolding st' using u pw pw72 r by (rule confirm_replaces_hash)
  have again: "fst (password_reset_confirm lib' e' st' em pw')
                = Inr [(''success'', JBool True), (''message'', JStr ''password reset complete'')]"
    if more: "\<exists>x\<in>set (password_reset_codes st'). PasswordResetCode.email x = em"
      and pw': "8 \<le> len pw'" "length pw' \<le> 72" for lib' e' pw'
  proof -
    from more have "query_code_by_email st' em \<noteq> None"
      by (simp add: query_code_by_email_None_iff)
    then obtain r' where "query_code_by_email st' em = Some r'" by blast
    with u' pw' show ?thesis by (simp add: confirm_with_record)
  qed
  show ?thesis using first again [of pw] again pw pw72 by blast
qed

theorem confirm_deletes_latest_only_witness:
  "db_constraints demo_state
   \<and> password_reset_confirm demo_bcrypt demo_env demo_state ''a@x.com'' ''newpass12''
       = (Inr [(''success'', JBool True), (''message'', JStr ''password reset complete'')],
          demo_state\<lparr>users := [alice\<lparr>password := ''s4ltnewpass12''\<rparr>],
                      password_reset_codes := [code_old, code_other]\<rparr>)
   \<and> fst (password_reset_confirm demo_bcrypt demo_env
            (demo_state\<lparr>users := [alice\<lparr>password := ''s4ltnewpass12''\<rparr>],
                        password_reset_codes := [code_old, code_other]\<rparr>)
            ''a@x.com'' ''newpass34'')
       = Inr [(''success'', JBool True), (''message'', JStr ''password reset complete'')]"
proof -
  let ?st' = "demo_state\<lparr>users := [alice\<lparr>password := ''s4ltnewpass12''\<rparr>],
                      password_reset_codes := [code_old, code_other]\<rparr>"
  have h1: "db_constraints demo_state" by (simp add: db_constraints_def demo_defs)
  have h2: "password_reset_confirm demo_bcrypt demo_env demo_state ''a@x.com'' ''newpass12''
       = (Inr [(''success'', JBool True), (''message'', JStr ''password reset complete'')], ?st')"
    by (simp add: password_reset_confirm_def query_code_by_email_def query_user_by_email_def
        update_user_def delete_code_def bcrypt_hashpw_def len_def utf8_continuation_def
        demo_defs)
  have more: "\<exists>x\<in>set (password_reset_codes ?st'). PasswordResetCode.email x = ''a@x.com''"
    by (simp add: demo_defs)
  have pw: "8 \<le> len ''newpass34'' \<and> length ''newpass34'' \<le> 72"
    by (simp add: len_def utf8_continuation_def)
  from confirm_deletes_latest_only [OF h1 h2] more pw
  have "fst (password_reset_confirm demo_bcrypt demo_env ?st' ''a@x.com'' ''newpass34'')
       = Inr [(''success'', JBool True), (''message'', JStr ''password reset complete'')]"
    by blast
  with h1 h2 show ?thesis by simp
qed

end
